theory Spec2Isabelle
  imports Complex_Main "HOL-Library.Word"
begin

section \<open>Numbers\<close>

text \<open>
  A JavaScript number is modelled by the value it denotes: \<open>NaN\<close>, the two infinities,
  or a finite value kept as an exact rational. Rounding to binary64, overflow to an
  infinity and the sign of zero are not represented; the comparisons below are the ones
  of the language (every comparison with \<open>NaN\<close> is false).
\<close>

datatype number = NaN | NegInfinity | Finite rat | Infinity

fun num_le :: "number \<Rightarrow> number \<Rightarrow> bool" where
  "num_le NaN _ = False"
| "num_le _ NaN = False"
| "num_le NegInfinity _ = True"
| "num_le _ Infinity = True"
| "num_le (Finite a) (Finite b) = (a \<le> b)"
| "num_le (Finite _) NegInfinity = False"
| "num_le Infinity _ = False"

fun num_lt :: "number \<Rightarrow> number \<Rightarrow> bool" where
  "num_lt NaN _ = False"
| "num_lt _ NaN = False"
| "num_lt _ NegInfinity = False"
| "num_lt Infinity _ = False"
| "num_lt (Finite a) (Finite b) = (a < b)"
| "num_lt NegInfinity _ = True"
| "num_lt (Finite _) Infinity = True"

text \<open>\<open>a >= b\<close> and \<open>a > b\<close> of the source.\<close>

definition num_ge :: "number \<Rightarrow> number \<Rightarrow> bool" where
  "num_ge a b = num_le b a"

definition num_gt :: "number \<Rightarrow> number \<Rightarrow> bool" where
  "num_gt a b = num_lt b a"

fun isNaN :: "number \<Rightarrow> bool" where
  "isNaN NaN = True"
| "isNaN _ = False"

text \<open>\<open>x / 1e9\<close>.\<close>

fun div_1e9 :: "number \<Rightarrow> number" where
  "div_1e9 (Finite a) = Finite (a / 1000000000)"
| "div_1e9 n = n"

section \<open>Range matcher (ranges.ts)\<close>

record amount_range =
  minR :: number
  maxR :: number

text \<open>
  \<^verbatim>\<open>for (const r of ranges) { if (amount >= r.min && amount <= r.max) return true; }
  return false;\<close>
\<close>

fun amountMatchesRanges :: "number \<Rightarrow> amount_range list \<Rightarrow> bool" where
  "amountMatchesRanges amount [] = False"
| "amountMatchesRanges amount (r # ranges) =
     (if num_ge amount (minR r) \<and> num_le amount (maxR r) then True
      else amountMatchesRanges amount ranges)"

text \<open>Membership of an amount in the closed interval of a range.\<close>

definition in_range :: "number \<Rightarrow> amount_range \<Rightarrow> bool" where
  "in_range x r = (num_le (minR r) x \<and> num_le x (maxR r))"

section \<open>Strings and their conversion to numbers\<close>

text \<open>
  A string is a list of code units; those up to 255 are represented. The white space of
  \<^verbatim>\<open>trim\<close> and of the conversion to a number in that range: tab, line feed, vertical
  tab, form feed, carriage return, space and the no-break space.
\<close>

definition isWhiteSpace :: "char \<Rightarrow> bool" where
  "isWhiteSpace c = (c \<in> set [CHR 0x09, CHR 0x0A, CHR 0x0B, CHR 0x0C, CHR 0x0D, CHR 0x20, CHR 0xA0])"

definition trim :: "string \<Rightarrow> string" where
  "trim s = rev (dropWhile isWhiteSpace (rev (dropWhile isWhiteSpace s)))"

text \<open>\<^verbatim>\<open>s.split(sep)\<close> for a separator of one character: never empty.\<close>

fun str_split :: "char \<Rightarrow> string \<Rightarrow> string list" where
  "str_split sep [] = [[]]"
| "str_split sep (c # cs) =
     (if c = sep then [] # str_split sep cs
      else (case str_split sep cs of
              [] \<Rightarrow> [[c]]
            | t # ts \<Rightarrow> (c # t) # ts))"

definition digit_of :: "char \<Rightarrow> nat option" where
  "digit_of c =
     (let n = (of_char c :: nat)
      in if 48 \<le> n \<and> n \<le> 57 then Some (n - 48)
         else if 97 \<le> n \<and> n \<le> 102 then Some (n - 87)
         else if 65 \<le> n \<and> n \<le> 70 then Some (n - 55)
         else None)"

text \<open>Whether \<open>c\<close> is a digit of the base \<open>b\<close>, and the value of a string of such digits.\<close>

definition isDigit :: "nat \<Rightarrow> char \<Rightarrow> bool" where
  "isDigit b c = (case digit_of c of None \<Rightarrow> False | Some d \<Rightarrow> d < b)"

definition digits_val :: "nat \<Rightarrow> string \<Rightarrow> nat" where
  "digits_val b ds = foldl (\<lambda>acc c. b * acc + (case digit_of c of None \<Rightarrow> 0 | Some d \<Rightarrow> d)) 0 ds"

text \<open>
  The grammar of the conversion of a string to a number (\<^verbatim>\<open>Number(s)\<close>): an optional
  exponent part \<^verbatim>\<open>e\<close>, sign, digits after the mantissa; \<open>None\<close> when \<open>r\<close> is neither
  empty nor an exponent part.
\<close>

definition exponentPart :: "string \<Rightarrow> int option" where
  "exponentPart r =
     (case r of
        [] \<Rightarrow> Some 0
      | e # r' \<Rightarrow>
          if e = CHR ''e'' \<or> e = CHR ''E''
          then (let (neg, ds) =
                      (case r' of
                         [] \<Rightarrow> (False, [])
                       | sg # r'' \<Rightarrow>
                           if sg = CHR ''-'' then (True, r'')
                           else if sg = CHR ''+'' then (False, r'')
                           else (False, r'))
                in if ds \<noteq> [] \<and> list_all (isDigit 10) ds
                   then Some (if neg then - int (digits_val 10 ds) else int (digits_val 10 ds))
                   else None)
          else None)"

text \<open>
  An unsigned decimal literal: \<^verbatim>\<open>Infinity\<close>, or digits with an optional fraction and
  exponent, or a fraction that starts with the point.
\<close>

definition strUnsignedDecimalLiteral :: "string \<Rightarrow> number option" where
  "strUnsignedDecimalLiteral u =
     (if u = ''Infinity'' then Some Infinity
      else
        let ip = takeWhile (isDigit 10) u;
            r1 = dropWhile (isDigit 10) u;
            hasDot = (case r1 of [] \<Rightarrow> False | c # _ \<Rightarrow> c = CHR ''.'');
            fp = (if hasDot then takeWhile (isDigit 10) (tl r1) else []);
            r2 = (if hasDot then dropWhile (isDigit 10) (tl r1) else r1)
        in if ip = [] \<and> fp = [] then None
           else (case exponentPart r2 of
                   None \<Rightarrow> None
                 | Some e \<Rightarrow>
                     Some (Finite
                       ((of_nat (digits_val 10 ip) + of_nat (digits_val 10 fp) / 10 ^ length fp)
                        * (if 0 \<le> e then 10 ^ nat e else 1 / 10 ^ nat (- e))))))"

fun negate :: "number \<Rightarrow> number" where
  "negate NaN = NaN"
| "negate NegInfinity = Infinity"
| "negate Infinity = NegInfinity"
| "negate (Finite a) = Finite (- a)"

definition strDecimalLiteral :: "string \<Rightarrow> number option" where
  "strDecimalLiteral t =
     (case t of
        [] \<Rightarrow> None
      | c # u \<Rightarrow>
          if c = CHR ''+'' then strUnsignedDecimalLiteral u
          else if c = CHR ''-'' then map_option negate (strUnsignedDecimalLiteral u)
          else strUnsignedDecimalLiteral t)"

text \<open>Binary, octal and hexadecimal integers: \<^verbatim>\<open>0b\<close>, \<^verbatim>\<open>0o\<close>, \<^verbatim>\<open>0x\<close> and digits.\<close>

definition nonDecimalIntegerLiteral :: "string \<Rightarrow> nat option" where
  "nonDecimalIntegerLiteral t =
     (case t of
        z # x # ds \<Rightarrow>
          (let b = (if x = CHR ''b'' \<or> x = CHR ''B'' then 2
                    else if x = CHR ''o'' \<or> x = CHR ''O'' then 8
                    else if x = CHR ''x'' \<or> x = CHR ''X'' then 16
                    else (0::nat))
           in if z = CHR ''0'' \<and> b \<noteq> 0 \<and> ds \<noteq> [] \<and> list_all (isDigit b) ds
              then Some (digits_val b ds) else None)
      | _ \<Rightarrow> None)"

text \<open>
  \<^verbatim>\<open>Number(s)\<close> for a string: white space is trimmed, the empty string is 0, a string
  outside the grammar is \<^verbatim>\<open>NaN\<close>.
\<close>

definition Number :: "string \<Rightarrow> number" where
  "Number s =
     (let t = trim s
      in if t = [] then Finite 0
         else (case nonDecimalIntegerLiteral t of
                 Some n \<Rightarrow> Finite (of_nat n)
               | None \<Rightarrow>
                   (case strDecimalLiteral t of
                      Some v \<Rightarrow> v
                    | None \<Rightarrow> NaN)))"

section \<open>Range parser (ranges.ts)\<close>

text \<open>
  The callback that turns a token into a range, \<open>None\<close> for \<^verbatim>\<open>null\<close>:
  \<^verbatim>\<open>
  const parts = token.split('-').map((p) => p.trim());
  const a = parts[0];
  const b = parts[1];
  const min = Number(a);
  const max = b !== undefined ? Number(b) : Number(a);
  if (Number.isNaN(min) || Number.isNaN(max)) return null as any;
  return { min, max } as Range;\<close>
\<close>

definition parseToken :: "string \<Rightarrow> amount_range option" where
  "parseToken token =
     (case map trim (str_split CHR ''-'' token) of
        [] \<Rightarrow> None
      | a # rest \<Rightarrow>
          (let b = (case rest of [] \<Rightarrow> None | b' # _ \<Rightarrow> Some b');
               min = Number a;
               max = (case b of Some b' \<Rightarrow> Number b' | None \<Rightarrow> Number a)
           in if isNaN min \<or> isNaN max then None
              else Some \<lparr>minR = min, maxR = max\<rparr>))"

text \<open>
  \<^verbatim>\<open>parseRanges\<close>; \<open>None\<close> is \<^verbatim>\<open>undefined\<close>.
  \<^verbatim>\<open>
  if (!rangeStr) return [];
  return rangeStr.split(',').map((s) => s.trim()).filter(Boolean)
    .map((token) => ...).filter(Boolean);\<close>
\<close>

definition parseRanges :: "string option \<Rightarrow> amount_range list" where
  "parseRanges rangeStr =
     (case rangeStr of
        None \<Rightarrow> []
      | Some s \<Rightarrow>
          if s = [] then []
          else map the
                 (filter (\<lambda>r. r \<noteq> None)
                    (map parseToken
                       (filter (\<lambda>t. t \<noteq> [])
                          (map trim (str_split CHR '','' s))))))"

section \<open>Slot ingestion scheduler (blockMonitorListener.ts)\<close>

text \<open>
  The closure variables of \<^verbatim>\<open>startBlockMonitorListener\<close>. Slots are natural numbers.
  A \<^verbatim>\<open>Set\<close> and the keys of a \<^verbatim>\<open>Map\<close> are lists in insertion order. A block is
  represented by its slot. Five fields record what the run-time holds outside the
  closure: \<open>saved\<close> lists the values written by \<^verbatim>\<open>saveLastSlot\<close>, oldest first (the file
  holds the last one), \<open>requests\<close> the \<^verbatim>\<open>getBlock\<close> calls that have not answered yet,
  \<open>processing\<close> the running \<^verbatim>\<open>processBlock\<close> calls, and \<open>retryTimers\<close> and
  \<open>requeueTimers\<close> the pending \<^verbatim>\<open>setTimeout\<close> callbacks.
\<close>

record sched =
  lastSlot :: nat
  inFlightFetches :: "nat list"
  processedSlots :: "nat list"
  processQueue :: "nat list"
  processWorkers :: nat
  processConcurrency :: nat
  saved :: "nat list"
  requests :: "nat list"
  processing :: "nat list"
  retryTimers :: "nat list"
  requeueTimers :: "nat list"

text \<open>\<^verbatim>\<open>set.add(s)\<close>, \<^verbatim>\<open>map.set(s, true)\<close>: a key already present keeps its place.\<close>

definition set_add :: "'a \<Rightarrow> 'a list \<Rightarrow> 'a list" where
  "set_add s xs = (if s \<in> set xs then xs else xs @ [s])"

text \<open>\<^verbatim>\<open>set.delete(s)\<close>, \<^verbatim>\<open>map.delete(s)\<close>.\<close>

definition set_delete :: "'a \<Rightarrow> 'a list \<Rightarrow> 'a list" where
  "set_delete s xs = removeAll s xs"

text \<open>
  \<^verbatim>\<open>loadLastSlot\<close>: the parsed file, or the empty object when reading or parsing fails
  (\<open>None\<close>).
\<close>

definition loadLastSlot :: "(string \<times> nat) list option \<Rightarrow> (string \<times> nat) list" where
  "loadLastSlot file = (case file of None \<Rightarrow> [] | Some m \<Rightarrow> m)"

text \<open>
  The start of \<^verbatim>\<open>startBlockMonitorListener\<close>, up to the declaration of the closure
  variables: \<open>file\<close> is the content of the checkpoint file, \<open>getSlot\<close> the answer of
  \<^verbatim>\<open>conn.getSlot('confirmed')\<close> (\<open>None\<close> when it throws), \<open>conc\<close> the configured
  concurrency. The source binds \<^verbatim>\<open>lastSlots\<close> and does not read it again.
\<close>

definition startBlockMonitorListener ::
  "(string \<times> nat) list option \<Rightarrow> nat option \<Rightarrow> nat \<Rightarrow> sched" where
  "startBlockMonitorListener file getSlot conc =
     (let lastSlots = loadLastSlot file;
          lastSlot0 = (case getSlot of Some tip \<Rightarrow> tip | None \<Rightarrow> 0)
      in \<lparr>lastSlot = lastSlot0, inFlightFetches = [], processedSlots = [],
          processQueue = [], processWorkers = 0, processConcurrency = conc,
          saved = [], requests = [], processing = [], retryTimers = [],
          requeueTimers = []\<rparr>)"

text \<open>
  \<^verbatim>\<open>tryStartProcessors\<close>: while a worker is free and the queue is not empty, take the
  first item and start \<^verbatim>\<open>processBlock\<close> on it, which counts itself in
  \<^verbatim>\<open>processWorkers\<close> at once. Its completion is the event \<open>ProcessDone\<close> below.
\<close>

function tryStartProcessors :: "sched \<Rightarrow> sched" where
  "tryStartProcessors st =
     (if processWorkers st < processConcurrency st \<and> processQueue st \<noteq> []
      then tryStartProcessors
             (st\<lparr>processQueue := tl (processQueue st),
                 processWorkers := processWorkers st + 1,
                 processing := processing st @ [hd (processQueue st)]\<rparr>)
      else st)"
  by pat_completeness auto
termination
  by (relation "measure (\<lambda>st. length (processQueue st))") auto

declare tryStartProcessors.simps [simp del]

text \<open>
  The loop of \<^verbatim>\<open>attemptAdvance\<close>, with its flag \<^verbatim>\<open>advanced\<close>. The writes of
  \<^verbatim>\<open>saveLastSlot\<close> are taken to succeed and to complete in the order they are
  issued, with no other task running in between.
\<close>

function advance_loop :: "sched \<Rightarrow> bool \<Rightarrow> sched \<times> bool" where
  "advance_loop st advanced =
     (let next = lastSlot st + 1
      in if next \<in> set (processedSlots st)
         then advance_loop
                (st\<lparr>lastSlot := next,
                    processedSlots := set_delete next (processedSlots st),
                    saved := saved st @ [next]\<rparr>) True
         else (st, advanced))"
  by pat_completeness auto
termination
  by (relation "measure (\<lambda>(st, advanced). length (processedSlots st))")
     (auto simp: set_delete_def length_removeAll_less)

declare advance_loop.simps [simp del]

definition attemptAdvance :: "sched \<Rightarrow> sched" where
  "attemptAdvance st =
     (case advance_loop st False of
        (st', advanced) \<Rightarrow> if advanced then tryStartProcessors st' else st')"

text \<open>The answers of \<^verbatim>\<open>conn.getBlock\<close> that \<^verbatim>\<open>doFetch\<close> tells apart.\<close>

datatype fetch_result =
    BlockData        \<comment> \<open>a block with transactions\<close>
  | NoBlock          \<comment> \<open>\<^verbatim>\<open>null\<close>, or no \<^verbatim>\<open>transactions\<close>\<close>
  | SkippedError     \<comment> \<open>an error whose message says skipped or missing\<close>
  | TransientError   \<comment> \<open>any other error\<close>

text \<open>
  \<^verbatim>\<open>doFetch(s)\<close> up to its first \<^verbatim>\<open>await\<close>: the two guards, then the slot enters the
  in-flight set and \<^verbatim>\<open>getBlock\<close> is called.
\<close>

definition doFetch :: "nat \<Rightarrow> sched \<Rightarrow> sched" where
  "doFetch s st =
     (if s \<le> lastSlot st then st
      else if s \<in> set (inFlightFetches st) \<or> s \<in> set (processedSlots st) then st
      else st\<lparr>inFlightFetches := set_add s (inFlightFetches st),
              requests := requests st @ [s]\<rparr>)"

text \<open>
  \<^verbatim>\<open>doFetch(s)\<close> from the answer of \<^verbatim>\<open>getBlock\<close> to its end, the \<^verbatim>\<open>finally\<close> clause
  included.
\<close>

definition doFetch_resume :: "nat \<Rightarrow> fetch_result \<Rightarrow> sched \<Rightarrow> sched" where
  "doFetch_resume s r st =
     (let st0 = st\<lparr>requests := remove1 s (requests st)\<rparr>;
          st1 = (case r of
                   BlockData \<Rightarrow>
                     tryStartProcessors (st0\<lparr>processQueue := processQueue st0 @ [s]\<rparr>)
                 | NoBlock \<Rightarrow>
                     attemptAdvance (st0\<lparr>processedSlots := set_add s (processedSlots st0)\<rparr>)
                 | SkippedError \<Rightarrow>
                     attemptAdvance (st0\<lparr>processedSlots := set_add s (processedSlots st0)\<rparr>)
                 | TransientError \<Rightarrow>
                     st0\<lparr>retryTimers := retryTimers st0 @ [s]\<rparr>)
      in st1\<lparr>inFlightFetches := set_delete s (inFlightFetches st1)\<rparr>)"

text \<open>
  The callback of the retry timer:
  \<^verbatim>\<open>inFlightFetches.delete(s); doFetch(s)\<close>.
\<close>

definition retry_callback :: "nat \<Rightarrow> sched \<Rightarrow> sched" where
  "retry_callback s st =
     doFetch s (st\<lparr>retryTimers := remove1 s (retryTimers st),
                   inFlightFetches := set_delete s (inFlightFetches st)\<rparr>)"

text \<open>
  The end of \<^verbatim>\<open>processBlock(s, blockData)\<close>: on success the slot is marked processed and
  the checkpoint advanced; on an error a timer is set to queue the block again; in
  both cases the worker count goes down.
\<close>

definition processBlock_end :: "nat \<Rightarrow> bool \<Rightarrow> sched \<Rightarrow> sched" where
  "processBlock_end s ok st =
     (let st0 = st\<lparr>processing := remove1 s (processing st)\<rparr>;
          st1 = (if ok
                 then attemptAdvance (st0\<lparr>processedSlots := set_add s (processedSlots st0)\<rparr>)
                 else st0\<lparr>requeueTimers := requeueTimers st0 @ [s]\<rparr>)
      in st1\<lparr>processWorkers := processWorkers st1 - 1\<rparr>)"

text \<open>The callback of the re-queue timer.\<close>

definition requeue_callback :: "nat \<Rightarrow> sched \<Rightarrow> sched" where
  "requeue_callback s st =
     tryStartProcessors
       (st\<lparr>requeueTimers := remove1 s (requeueTimers st),
           processQueue := processQueue st @ [s]\<rparr>)"

text \<open>
  What can happen to the scheduler: a root slot update (\<open>Observe\<close>), the answer to a
  pending \<^verbatim>\<open>getBlock\<close>, a timer that fires, the end of a running \<^verbatim>\<open>processBlock\<close>.
  An event that is not enabled leaves the state as it is.
\<close>

datatype event =
    Observe nat
  | FetchDone nat fetch_result
  | RetryTimer nat
  | ProcessDone nat bool
  | RequeueTimer nat

fun step :: "sched \<Rightarrow> event \<Rightarrow> sched" where
  "step st (Observe s) = doFetch s st"
| "step st (FetchDone s r) =
     (if s \<in> set (requests st) then doFetch_resume s r st else st)"
| "step st (RetryTimer s) =
     (if s \<in> set (retryTimers st) then retry_callback s st else st)"
| "step st (ProcessDone s ok) =
     (if s \<in> set (processing st) then processBlock_end s ok st else st)"
| "step st (RequeueTimer s) =
     (if s \<in> set (requeueTimers st) then requeue_callback s st else st)"

definition run :: "sched \<Rightarrow> event list \<Rightarrow> sched" where
  "run st es = foldl step st es"

section \<open>Recently seen signatures (the transaction monitor, second part of ranges.ts)\<close>

definition processedTxsMaxSize :: nat where
  "processedTxsMaxSize = 10000"

text \<open>
  The head of the \<^verbatim>\<open>onLogs\<close> handler. \<open>processedTxs\<close> is the \<^verbatim>\<open>Set\<close> of signatures in
  insertion order. The result is the new set and whether the handler goes on to fetch
  and process the transaction.
  \<^verbatim>\<open>
  if (processedTxs.has(signature)) { return; }
  processedTxs.add(signature);
  if (processedTxs.size > processedTxsMaxSize) {
    const arr = Array.from(processedTxs);
    arr.slice(0, processedTxsMaxSize / 2).forEach(tx => processedTxs.delete(tx));
  }\<close>
\<close>

definition seen_signature :: "string \<Rightarrow> string list \<Rightarrow> string list \<times> bool" where
  "seen_signature signature processedTxs =
     (if signature \<in> set processedTxs then (processedTxs, False)
      else let added = set_add signature processedTxs
           in (if length added > processedTxsMaxSize
               then foldl (\<lambda>txs tx. set_delete tx txs) added
                      (take (processedTxsMaxSize div 2) added)
               else added, True))"

text \<open>The set after a sequence of log events, from the empty set of a fresh process.\<close>

definition seen_run :: "string list \<Rightarrow> string list" where
  "seen_run sigs = foldl (\<lambda>txs sg. fst (seen_signature sg txs)) [] sigs"

section \<open>Instruction parser (blockParser.ts)\<close>

type_synonym byte = "8 word"

record outflow =
  amount :: number
  receiver :: "string option"   \<comment> \<open>\<open>None\<close> is \<^verbatim>\<open>undefined\<close>\<close>
  type :: string

definition SYSTEM_PROGRAM :: string where
  "SYSTEM_PROGRAM = ''11111111111111111111111111111111''"

text \<open>
  An entry of the account table is a string or a public key object, given by what its
  \<^verbatim>\<open>toBase58()\<close> returns (its \<^verbatim>\<open>toString()\<close> returns the same).
\<close>

datatype account_key = KeyString string | PublicKey string

text \<open>
  The fields of a structured instruction that the parser reads; \<open>None\<close> is an absent
  field.
\<close>

record transfer_info =
  source :: "string option"
  destination :: "string option"
  lamports :: "number option"

record parsed_instruction =
  parsed_type :: "string option"
  info :: "transfer_info option"

text \<open>
  The payload of an instruction: a string in Base58, a byte array, or neither.
\<close>

datatype instruction_data = DataString string | DataBytes "byte list" | DataOther

record instruction =
  parsed :: "parsed_instruction option"
  program :: "string option"
  programIdIndex :: "int option"
  data :: instruction_data
  accounts :: "int list option"

record message =
  staticAccountKeys :: "account_key list option"
  accountKeys :: "account_key list option"
  instructions :: "instruction list option"

text \<open>
  A transaction as the parser reads it: \<^verbatim>\<open>tx.meta\<close>, of which only the presence
  counts, and \<^verbatim>\<open>tx.transaction.message\<close>.
\<close>

record tx =
  meta :: "unit option"
  message :: message

text \<open>\<^verbatim>\<open>xs[i]\<close>: \<^verbatim>\<open>undefined\<close> outside the array.\<close>

definition lookup :: "'a list \<Rightarrow> int \<Rightarrow> 'a option" where
  "lookup xs i = (if 0 \<le> i \<and> nat i < length xs then Some (xs ! nat i) else None)"

text \<open>\<^verbatim>\<open>typeof k === 'string' ? k : k?.toBase58?.()\<close>\<close>

fun key_address :: "account_key option \<Rightarrow> string option" where
  "key_address None = None"
| "key_address (Some (KeyString a)) = Some a"
| "key_address (Some (PublicKey a)) = Some a"

text \<open>\<^verbatim>\<open>String(k)\<close>\<close>

fun key_String :: "account_key option \<Rightarrow> string" where
  "key_String None = ''undefined''"
| "key_String (Some (KeyString a)) = a"
| "key_String (Some (PublicKey a)) = a"

text \<open>\<^verbatim>\<open>typeof k === 'string' ? k : k?.toBase58?.() || String(k)\<close>\<close>

fun key_receiver :: "account_key option \<Rightarrow> string" where
  "key_receiver (Some (KeyString a)) = a"
| "key_receiver k =
     (case key_address k of
        None \<Rightarrow> key_String k
      | Some a \<Rightarrow> if a \<noteq> [] then a else key_String k)"

text \<open>\<^verbatim>\<open>buf.readBigUInt64LE()\<close> on a buffer of eight bytes.\<close>

definition readBigUInt64LE :: "byte list \<Rightarrow> nat" where
  "readBigUInt64LE buf = foldr (\<lambda>b acc. unat b + 256 * acc) buf 0"

text \<open>What can be thrown inside the \<^verbatim>\<open>try\<close> of the raw case.\<close>

datatype exn = DecodeError

text \<open>
  The decoded payload of an instruction. \<open>decode\<close> is \<^verbatim>\<open>bs58.decode\<close>, which throws
  (\<open>None\<close>) on a string that is not Base58. \<open>Inr None\<close> is the \<^verbatim>\<open>continue\<close> of the
  last branch.
\<close>

definition instrData_of ::
  "(string \<Rightarrow> byte list option) \<Rightarrow> instruction \<Rightarrow> exn + byte list option" where
  "instrData_of decode instr =
     (case data instr of
        DataString str \<Rightarrow>
          (case decode str of None \<Rightarrow> Inl DecodeError | Some bytes \<Rightarrow> Inr (Some bytes))
      | DataBytes bytes \<Rightarrow> Inr (Some bytes)
      | DataOther \<Rightarrow> Inr None)"

text \<open>
  Case 1 of the loop body, for an instruction with \<^verbatim>\<open>instr.parsed\<close> and
  \<^verbatim>\<open>instr.program === 'system'\<close>: the outflow pushed, if any.
\<close>

definition parsed_case :: "string \<Rightarrow> parsed_instruction \<Rightarrow> outflow option" where
  "parsed_case cexAddress p =
     (if parsed_type p = Some ''transfer''
      then (case info p of
              None \<Rightarrow> None
            | Some ti \<Rightarrow>
                (case lamports ti of
                   None \<Rightarrow> None
                 | Some l \<Rightarrow>
                     if source ti = Some cexAddress \<and> num_gt l (Finite 0)
                     then Some \<lparr>amount = div_1e9 l, receiver = destination ti, type = ''SOL''\<rparr>
                     else None))
      else None)"

text \<open>
  Case 2 of the loop body, the content of its \<^verbatim>\<open>try\<close>: \<open>Inl\<close> is an exception,
  \<open>Inr None\<close> a \<^verbatim>\<open>continue\<close> or a falsy receiver, \<open>Inr (Some out)\<close> a push.
\<close>

definition raw_case ::
  "(string \<Rightarrow> byte list option) \<Rightarrow> account_key list \<Rightarrow> string \<Rightarrow> instruction
     \<Rightarrow> exn + outflow option" where
  "raw_case decode keys cexAddress instr =
     (case programIdIndex instr of
        None \<Rightarrow> Inr None
      | Some programIdx \<Rightarrow>
          if key_address (lookup keys programIdx) \<noteq> Some SYSTEM_PROGRAM then Inr None
          else
            (case instrData_of decode instr of
               Inl e \<Rightarrow> Inl e
             | Inr None \<Rightarrow> Inr None
             | Inr (Some instrData) \<Rightarrow>
                 if length instrData < 12 then Inr None
                 else if instrData ! 0 \<noteq> 2 \<or> instrData ! 1 \<noteq> 0
                         \<or> instrData ! 2 \<noteq> 0 \<or> instrData ! 3 \<noteq> 0 then Inr None
                 else
                   (let amountBuf = take 8 (drop 4 instrData);
                        transferAmountLamports = Finite (of_nat (readBigUInt64LE amountBuf))
                    in if num_le transferAmountLamports (Finite 0) then Inr None
                       else
                         (let accs = (case accounts instr of None \<Rightarrow> [] | Some a \<Rightarrow> a)
                          in if length accs < 2 then Inr None
                             else
                               (let fromIdx = accs ! 0;
                                    toIdx = accs ! 1;
                                    fromAddr = lookup keys fromIdx
                                in if key_address fromAddr \<noteq> Some cexAddress then Inr None
                                   else
                                     (let toAddr = lookup keys toIdx;
                                          rcv = key_receiver toAddr
                                      in if rcv \<noteq> []
                                         then Inr (Some \<lparr>amount = div_1e9 transferAmountLamports,
                                                         receiver = Some rcv, type = ''SOL''\<rparr>)
                                         else Inr None))))))"

text \<open>
  The body of the loop over the instructions: what one instruction adds to
  \<^verbatim>\<open>results\<close>. An exception of the raw case is caught and the loop continues.
\<close>

definition instr_outflows ::
  "(string \<Rightarrow> byte list option) \<Rightarrow> account_key list \<Rightarrow> string \<Rightarrow> instruction
     \<Rightarrow> outflow list" where
  "instr_outflows decode keys cexAddress instr =
     (case (if program instr = Some ''system'' then parsed instr else None) of
        Some prs \<Rightarrow>
          (case parsed_case cexAddress prs of None \<Rightarrow> [] | Some out \<Rightarrow> [out])
      | None \<Rightarrow>
          (case raw_case decode keys cexAddress instr of
             Inl e \<Rightarrow> []
           | Inr None \<Rightarrow> []
           | Inr (Some out) \<Rightarrow> [out]))"

fun scan :: "(string \<Rightarrow> byte list option) \<Rightarrow> account_key list \<Rightarrow> string
     \<Rightarrow> outflow list \<Rightarrow> instruction list \<Rightarrow> outflow list" where
  "scan decode keys cexAddress results [] = results"
| "scan decode keys cexAddress results (instr # rest) =
     scan decode keys cexAddress (results @ instr_outflows decode keys cexAddress instr) rest"

text \<open>
  \<^verbatim>\<open>parseBlockTransactions(tx, cexAddress)\<close>:
  \<^verbatim>\<open>
  if (!meta) return results;
  const accountKeys = message.staticAccountKeys || message.accountKeys || [];
  const instructions = message.instructions || [];
  for (const instr of instructions) { ... }
  return results;\<close>
\<close>

definition message_keys :: "message \<Rightarrow> account_key list" where
  "message_keys m =
     (case staticAccountKeys m of
        Some ks \<Rightarrow> ks
      | None \<Rightarrow> (case accountKeys m of Some ks \<Rightarrow> ks | None \<Rightarrow> []))"

definition message_instructions :: "message \<Rightarrow> instruction list" where
  "message_instructions m = (case instructions m of Some is \<Rightarrow> is | None \<Rightarrow> [])"

definition parseBlockTransactions ::
  "(string \<Rightarrow> byte list option) \<Rightarrow> tx \<Rightarrow> string \<Rightarrow> outflow list" where
  "parseBlockTransactions decode t cexAddress =
     (case meta t of
        None \<Rightarrow> []
      | Some _ \<Rightarrow>
          scan decode (message_keys (message t)) cexAddress []
            (message_instructions (message t)))"

text \<open>The eight bytes of a number below \<open>2 ^ 64\<close>, lowest first.\<close>

definition LE64 :: "nat \<Rightarrow> byte list" where
  "LE64 n = [of_nat n, of_nat (n div 2 ^ 8), of_nat (n div 2 ^ 16), of_nat (n div 2 ^ 24),
             of_nat (n div 2 ^ 32), of_nat (n div 2 ^ 40), of_nat (n div 2 ^ 48),
             of_nat (n div 2 ^ 56)]"

section \<open>Properties of the range matcher\<close>

lemma amountMatchesRanges_iff:
  "amountMatchesRanges x rs = (\<exists>r \<in> set rs. in_range x r)"
  by (induction rs) (auto simp: in_range_def num_ge_def)

text \<open>
  C8. For every amount and every list of ranges the matcher answers true exactly when
  the amount lies in the closed interval of at least one range of the list; 7 matches
  the single range 5 to 10, 11 does not, and no amount matches the empty list.
\<close>

theorem C8_matches_iff_some_range:
  "(amountMatchesRanges x rs \<longleftrightarrow> (\<exists>r \<in> set rs. num_le (minR r) x \<and> num_le x (maxR r)))
   \<and> amountMatchesRanges (Finite 7) [\<lparr>minR = Finite 5, maxR = Finite 10\<rparr>]
   \<and> \<not> amountMatchesRanges (Finite 11) [\<lparr>minR = Finite 5, maxR = Finite 10\<rparr>]
   \<and> \<not> amountMatchesRanges x []"
  using amountMatchesRanges_iff [of x rs] by (simp add: in_range_def num_ge_def)

theorem C8_witness:
  "amountMatchesRanges (Finite (5/2))
     [\<lparr>minR = Finite 5, maxR = Finite 10\<rparr>, \<lparr>minR = Finite 2, maxR = Finite 3\<rparr>]
   \<and> (\<exists>r \<in> set [\<lparr>minR = Finite 5, maxR = Finite 10\<rparr>, \<lparr>minR = Finite 2, maxR = Finite 3\<rparr>].
         num_le (minR r) (Finite (5/2)) \<and> num_le (Finite (5/2)) (maxR r))"
  using C8_matches_iff_some_range
    [of "Finite (5/2)" "[\<lparr>minR = Finite 5, maxR = Finite 10\<rparr>, \<lparr>minR = Finite 2, maxR = Finite 3\<rparr>]"]
  by (simp add: num_ge_def)


section \<open>Properties of the scheduler\<close>

lemma tryStartProcessors_keeps:
  "lastSlot (tryStartProcessors st) = lastSlot st
   \<and> processedSlots (tryStartProcessors st) = processedSlots st
   \<and> saved (tryStartProcessors st) = saved st
   \<and> inFlightFetches (tryStartProcessors st) = inFlightFetches st
   \<and> requests (tryStartProcessors st) = requests st
   \<and> retryTimers (tryStartProcessors st) = retryTimers st"
proof (induction st rule: tryStartProcessors.induct)
  case (1 st)
  show ?case
  proof (cases "processWorkers st < processConcurrency st \<and> processQueue st \<noteq> []")
    case True
    with "1" show ?thesis by (simp add: tryStartProcessors.simps [of st])
  next
    case False
    then show ?thesis by (auto simp: tryStartProcessors.simps [of st])
  qed
qed

lemma advance_loop_spec:
  assumes "advance_loop st adv = (st', adv')"
  shows "lastSlot st \<le> lastSlot st'
    \<and> (\<forall>s. lastSlot st < s \<and> s \<le> lastSlot st' \<longrightarrow> s \<in> set (processedSlots st))
    \<and> lastSlot st' + 1 \<notin> set (processedSlots st)
    \<and> set (processedSlots st') = set (processedSlots st) - {lastSlot st <.. lastSlot st'}
    \<and> saved st' = saved st @ [lastSlot st + 1 ..< lastSlot st' + 1]
    \<and> inFlightFetches st' = inFlightFetches st \<and> requests st' = requests st
    \<and> retryTimers st' = retryTimers st"
  using assms
proof (induction st adv arbitrary: st' adv' rule: advance_loop.induct)
  case (1 st advanced)
  let ?n = "lastSlot st + 1"
  show ?case
  proof (cases "?n \<in> set (processedSlots st)")
    case False
    with "1.prems" have "st' = st" by (subst (asm) advance_loop.simps) (simp add: Let_def)
    with False show ?thesis by auto
  next
    case True
    let ?st1 = "st\<lparr>lastSlot := ?n, processedSlots := set_delete ?n (processedSlots st),
                    saved := saved st @ [?n]\<rparr>"
    from True "1.prems" have run: "advance_loop ?st1 True = (st', adv')"
      by (subst (asm) advance_loop.simps) (simp add: Let_def)
    note IH = "1.IH" [OF refl True run]
    from IH have le: "?n \<le> lastSlot st'" by simp
    have a: "\<forall>s. lastSlot st < s \<and> s \<le> lastSlot st' \<longrightarrow> s \<in> set (processedSlots st)"
    proof (intro allI impI)
      fix s assume s: "lastSlot st < s \<and> s \<le> lastSlot st'"
      show "s \<in> set (processedSlots st)"
      proof (cases "s = ?n")
        case True with \<open>?n \<in> set (processedSlots st)\<close> show ?thesis by simp
      next
        case False
        with s have "lastSlot ?st1 < s \<and> s \<le> lastSlot st'" by simp
        with IH have "s \<in> set (processedSlots ?st1)" by blast
        then show ?thesis by (simp add: set_delete_def)
      qed
    qed
    have b: "lastSlot st' + 1 \<notin> set (processedSlots st)"
    proof
      assume "lastSlot st' + 1 \<in> set (processedSlots st)"
      moreover from le have "lastSlot st' + 1 \<noteq> ?n" by simp
      ultimately have "lastSlot st' + 1 \<in> set (processedSlots ?st1)"
        by (simp add: set_delete_def)
      with IH show False by blast
    qed
    have c: "set (processedSlots st') = set (processedSlots st) - {lastSlot st <.. lastSlot st'}"
    proof -
      from IH have "set (processedSlots st') = set (processedSlots ?st1) - {?n <.. lastSlot st'}"
        by simp
      also have "\<dots> = set (processedSlots st) - ({?n} \<union> {?n <.. lastSlot st'})"
        by (auto simp: set_delete_def)
      also from le have "{?n} \<union> {?n <.. lastSlot st'} = {lastSlot st <.. lastSlot st'}"
        by auto
      finally show ?thesis .
    qed
    have d: "saved st' = saved st @ [lastSlot st + 1 ..< lastSlot st' + 1]"
    proof -
      from IH have "saved st' = (saved st @ [?n]) @ [?n + 1 ..< lastSlot st' + 1]" by simp
      also from le have "\<dots> = saved st @ [?n ..< lastSlot st' + 1]"
        by (simp add: upt_conv_Cons)
      finally show ?thesis .
    qed
    from IH have e: "inFlightFetches st' = inFlightFetches st \<and> requests st' = requests st
       \<and> retryTimers st' = retryTimers st" by simp
    from le a b c d e show ?thesis by simp
  qed
qed


lemma attemptAdvance_spec:
  "lastSlot st \<le> lastSlot (attemptAdvance st)
    \<and> (\<forall>s. lastSlot st < s \<and> s \<le> lastSlot (attemptAdvance st) \<longrightarrow> s \<in> set (processedSlots st))
    \<and> lastSlot (attemptAdvance st) + 1 \<notin> set (processedSlots st)
    \<and> set (processedSlots (attemptAdvance st))
        = set (processedSlots st) - {lastSlot st <.. lastSlot (attemptAdvance st)}
    \<and> saved (attemptAdvance st)
        = saved st @ [lastSlot st + 1 ..< lastSlot (attemptAdvance st) + 1]
    \<and> inFlightFetches (attemptAdvance st) = inFlightFetches st
    \<and> requests (attemptAdvance st) = requests st
    \<and> retryTimers (attemptAdvance st) = retryTimers st"
proof -
  obtain st' adv' where run: "advance_loop st False = (st', adv')"
    by (cases "advance_loop st False")
  have eq: "lastSlot (attemptAdvance st) = lastSlot st'"
    "processedSlots (attemptAdvance st) = processedSlots st'"
    "saved (attemptAdvance st) = saved st'"
    "inFlightFetches (attemptAdvance st) = inFlightFetches st'"
    "requests (attemptAdvance st) = requests st'"
    "retryTimers (attemptAdvance st) = retryTimers st'"
    using run by (simp_all add: attemptAdvance_def tryStartProcessors_keeps)
  show ?thesis unfolding eq using advance_loop_spec [OF run] .
qed

lemma attemptAdvance_example1:
  assumes "lastSlot st = 4" "processedSlots st = [5, 7]"
  shows "lastSlot (attemptAdvance st) = 5 \<and> processedSlots (attemptAdvance st) = [7]
     \<and> saved (attemptAdvance st) = saved st @ [5]"
proof -
  have "advance_loop st False = (st\<lparr>lastSlot := 5, processedSlots := [7], saved := saved st @ [5]\<rparr>, True)"
    using assms by (simp add: advance_loop.simps [of st] advance_loop.simps [of "st\<lparr>lastSlot := a, processedSlots := b, saved := c\<rparr>" for a b c] set_delete_def Let_def)
  then show ?thesis by (simp add: attemptAdvance_def tryStartProcessors_keeps)
qed

lemma attemptAdvance_example2:
  assumes "lastSlot st = 5" "processedSlots st = [7, 6]"
  shows "lastSlot (attemptAdvance st) = 7 \<and> processedSlots (attemptAdvance st) = []
     \<and> saved (attemptAdvance st) = saved st @ [6, 7]"
proof -
  have "advance_loop st False = (st\<lparr>lastSlot := 7, processedSlots := [], saved := saved st @ [6, 7]\<rparr>, True)"
    using assms by (simp add: advance_loop.simps [of st] advance_loop.simps [of "st\<lparr>lastSlot := a, processedSlots := b, saved := c\<rparr>" for a b c] set_delete_def Let_def)
  then show ?thesis by (simp add: attemptAdvance_def tryStartProcessors_keeps)
qed


text \<open>
  C1. One call of \<^verbatim>\<open>attemptAdvance\<close> moves the checkpoint over the longest run of
  consecutive slots above it that are in the processed set, and no further: every slot
  it passes was in the set, the slot after the new checkpoint was not, exactly the passed
  slots leave the set, and each value the checkpoint takes is written. From checkpoint 4
  with processed slots 5 and 7 a call stops at 5 and leaves 7; once 6 is marked too, the
  next call reaches 7.
\<close>

theorem C1_advance_contiguous_prefix:
  "lastSlot st \<le> lastSlot (attemptAdvance st)
   \<and> (\<forall>s. lastSlot st < s \<and> s \<le> lastSlot (attemptAdvance st) \<longrightarrow> s \<in> set (processedSlots st))
   \<and> lastSlot (attemptAdvance st) + 1 \<notin> set (processedSlots st)
   \<and> set (processedSlots (attemptAdvance st))
       = set (processedSlots st) - {lastSlot st <.. lastSlot (attemptAdvance st)}
   \<and> saved (attemptAdvance st)
       = saved st @ [lastSlot st + 1 ..< lastSlot (attemptAdvance st) + 1]
   \<and> (lastSlot st = 4 \<and> processedSlots st = [5, 7] \<longrightarrow>
        lastSlot (attemptAdvance st) = 5 \<and> processedSlots (attemptAdvance st) = [7]
        \<and> lastSlot (attemptAdvance
             ((attemptAdvance st)\<lparr>processedSlots :=
                 set_add 6 (processedSlots (attemptAdvance st))\<rparr>)) = 7)"
proof -
  have ex: "lastSlot (attemptAdvance st) = 5 \<and> processedSlots (attemptAdvance st) = [7]
        \<and> lastSlot (attemptAdvance
             ((attemptAdvance st)\<lparr>processedSlots :=
                 set_add 6 (processedSlots (attemptAdvance st))\<rparr>)) = 7"
    if h: "lastSlot st = 4 \<and> processedSlots st = [5, 7]"
  proof -
    from h have e1: "lastSlot (attemptAdvance st) = 5 \<and> processedSlots (attemptAdvance st) = [7]"
      using attemptAdvance_example1 [of st] by simp
    let ?st2 = "(attemptAdvance st)\<lparr>processedSlots :=
                 set_add 6 (processedSlots (attemptAdvance st))\<rparr>"
    from e1 have "lastSlot ?st2 = 5" "processedSlots ?st2 = [7, 6]"
      by (simp_all add: set_add_def)
    then have "lastSlot (attemptAdvance ?st2) = 7"
      using attemptAdvance_example2 [of ?st2] by simp
    with e1 show ?thesis by simp
  qed
  from attemptAdvance_spec [of st] ex show ?thesis by blast
qed

theorem C1_witness:
  "lastSlot (attemptAdvance (startBlockMonitorListener None (Some 4) 8\<lparr>processedSlots := [5, 7]\<rparr>)) = 5
   \<and> processedSlots (attemptAdvance (startBlockMonitorListener None (Some 4) 8\<lparr>processedSlots := [5, 7]\<rparr>)) = [7]
   \<and> saved (attemptAdvance (startBlockMonitorListener None (Some 4) 8\<lparr>processedSlots := [5, 7]\<rparr>)) = [5]"
  using C1_advance_contiguous_prefix
    [of "startBlockMonitorListener None (Some 4) 8\<lparr>processedSlots := [5, 7]\<rparr>"]
  by (simp add: startBlockMonitorListener_def)

lemma step_checkpoint:
  "lastSlot st \<le> lastSlot (step st e)
   \<and> saved (step st e) = saved st @ [lastSlot st + 1 ..< lastSlot (step st e) + 1]"
proof (cases e)
  case (Observe s)
  then show ?thesis by (simp add: doFetch_def)
next
  case (FetchDone s r)
  show ?thesis
  proof (cases r)
    case BlockData
    with FetchDone show ?thesis
      by (simp add: doFetch_resume_def Let_def tryStartProcessors_keeps)
  next
    case NoBlock
    with FetchDone show ?thesis
      using attemptAdvance_spec
        [of "st\<lparr>requests := remove1 s (requests st),
                processedSlots := set_add s (processedSlots st)\<rparr>"]
      by (simp add: doFetch_resume_def Let_def)
  next
    case SkippedError
    with FetchDone show ?thesis
      using attemptAdvance_spec
        [of "st\<lparr>requests := remove1 s (requests st),
                processedSlots := set_add s (processedSlots st)\<rparr>"]
      by (simp add: doFetch_resume_def Let_def)
  next
    case TransientError
    with FetchDone show ?thesis by (simp add: doFetch_resume_def Let_def)
  qed
next
  case (RetryTimer s)
  then show ?thesis by (simp add: retry_callback_def doFetch_def)
next
  case (ProcessDone s ok)
  then show ?thesis
    using attemptAdvance_spec
      [of "st\<lparr>processing := remove1 s (processing st),
              processedSlots := set_add s (processedSlots st)\<rparr>"]
    by (simp add: processBlock_end_def Let_def)
next
  case (RequeueTimer s)
  then show ?thesis by (simp add: requeue_callback_def tryStartProcessors_keeps)
qed

text \<open>
  C5, as stated, fails: with a persisted checkpoint of 100 and a ledger tip of 500 the
  scheduler starts at 500.
\<close>

theorem C5_counterexample:
  "lastSlot (startBlockMonitorListener (Some [(''lastSlot'', 100)]) (Some 500) 8) = 500
   \<and> lastSlot (startBlockMonitorListener (Some [(''lastSlot'', 100)]) (Some 500) 8) \<noteq> 100"
  by (simp add: startBlockMonitorListener_def)

text \<open>
  C5, amended. The scheduler starts at the current ledger tip, or at 0 when the tip
  cannot be read, whatever the checkpoint file holds, and has written nothing yet. Each
  event then leaves the checkpoint where it is or raises it, and writes every value the
  checkpoint takes, in order.
\<close>

theorem C5_start_from_tip_then_monotone:
  "lastSlot (startBlockMonitorListener file getSlot conc)
     = (case getSlot of Some tip \<Rightarrow> tip | None \<Rightarrow> 0)
   \<and> saved (startBlockMonitorListener file getSlot conc) = []
   \<and> lastSlot st \<le> lastSlot (step st e)
   \<and> saved (step st e) = saved st @ [lastSlot st + 1 ..< lastSlot (step st e) + 1]"
  using step_checkpoint [of st e] by (simp add: startBlockMonitorListener_def)

theorem C5_witness:
  "lastSlot (step (startBlockMonitorListener None (Some 4) 8\<lparr>requests := [5]\<rparr>)
               (FetchDone 5 NoBlock)) = 5
   \<and> saved (step (startBlockMonitorListener None (Some 4) 8\<lparr>requests := [5]\<rparr>)
               (FetchDone 5 NoBlock)) = [5]"
proof -
  have v: "lastSlot (step (startBlockMonitorListener None (Some 4) 8\<lparr>requests := [5]\<rparr>)
               (FetchDone 5 NoBlock)) = 5"
    by code_simp
  show ?thesis
    using C5_start_from_tip_then_monotone
      [of None "Some 4" 8 "startBlockMonitorListener None (Some 4) 8\<lparr>requests := [5]\<rparr>"
        "FetchDone 5 NoBlock"]
    unfolding v by (simp add: startBlockMonitorListener_def)
qed

lemma doFetch_guard:
  "doFetch s st \<noteq> st \<Longrightarrow>
     lastSlot st < s \<and> s \<notin> set (inFlightFetches st) \<and> s \<notin> set (processedSlots st)"
  by (auto simp: doFetch_def split: if_splits)

lemma doFetch_starts:
  "lastSlot st < s \<Longrightarrow> s \<notin> set (inFlightFetches st) \<Longrightarrow> s \<notin> set (processedSlots st) \<Longrightarrow>
     requests (doFetch s st) = requests st @ [s] \<and> s \<in> set (inFlightFetches (doFetch s st))"
  by (simp add: doFetch_def set_add_def)

lemma doFetch_twice:
  "doFetch s (doFetch s st) = doFetch s st"
  by (simp add: doFetch_def set_add_def)

text \<open>
  C6. The claim that at most one fetch per slot is in flight fails on this run: slot 10
  is observed, its fetch fails with a transient error, the slot is observed again while
  the retry timer is pending, and the timer callback then starts a second fetch while
  the first is unanswered. Before the timer fires one request is pending.
\<close>

theorem C6_second_fetch_while_first_pending:
  "requests (run (startBlockMonitorListener None (Some 9) 8)
      [Observe 10, FetchDone 10 TransientError, Observe 10, RetryTimer 10]) = [10, 10]
   \<and> requests (run (startBlockMonitorListener None (Some 9) 8)
      [Observe 10, FetchDone 10 TransientError, Observe 10]) = [10]"
  by (simp add: run_def startBlockMonitorListener_def doFetch_def doFetch_resume_def
      retry_callback_def set_add_def set_delete_def Let_def)

section \<open>Properties of the recently seen signatures\<close>

lemma foldl_set_delete:
  "foldl (\<lambda>txs tx. set_delete tx txs) acc zs = filter (\<lambda>x. x \<notin> set zs) acc"
proof (induction zs arbitrary: acc)
  case Nil
  then show ?case by simp
next
  case (Cons z zs)
  have "filter (\<lambda>x. x \<notin> set zs) (removeAll z acc) = filter (\<lambda>x. x \<notin> set (z # zs)) acc"
    by (induction acc) auto
  with Cons show ?case by (simp add: set_delete_def)
qed

lemma evict_prefix:
  assumes "distinct ys"
  shows "foldl (\<lambda>txs tx. set_delete tx txs) ys (take n ys) = drop n ys"
proof -
  have d: "distinct (take n ys @ drop n ys)" using assms by simp
  then have disj: "set (take n ys) \<inter> set (drop n ys) = {}" by (simp only: distinct_append)
  have "filter (\<lambda>x. x \<notin> set (take n ys)) ys
          = filter (\<lambda>x. x \<notin> set (take n ys)) (take n ys @ drop n ys)"
    by simp
  also have "\<dots> = filter (\<lambda>x. x \<notin> set (take n ys)) (take n ys)
                   @ filter (\<lambda>x. x \<notin> set (take n ys)) (drop n ys)"
    by (rule filter_append)
  also have "filter (\<lambda>x. x \<notin> set (take n ys)) (take n ys) = []"
    by simp
  also have "filter (\<lambda>x. x \<notin> set (take n ys)) (drop n ys) = drop n ys"
    using disj by (auto intro: filter_True)
  finally show ?thesis by (simp add: foldl_set_delete)
qed

lemma seen_signature_cases:
  assumes "distinct xs" "length xs \<le> processedTxsMaxSize"
  shows "(sg \<in> set xs \<longrightarrow> seen_signature sg xs = (xs, False))
    \<and> (sg \<notin> set xs \<and> length xs < 10000 \<longrightarrow> seen_signature sg xs = (xs @ [sg], True))
    \<and> (sg \<notin> set xs \<and> length xs = 10000 \<longrightarrow>
          seen_signature sg xs = (drop 5000 xs @ [sg], True))"
proof -
  have "seen_signature sg xs = (drop 5000 xs @ [sg], True)"
    if h: "sg \<notin> set xs" "length xs = 10000"
  proof -
    from assms h have "distinct (xs @ [sg])" by simp
    from evict_prefix [OF this, of 5000] h show ?thesis
      by (simp add: seen_signature_def set_add_def processedTxsMaxSize_def)
  qed
  then show ?thesis
    by (auto simp: seen_signature_def set_add_def processedTxsMaxSize_def)
qed

lemma seen_signature_inv:
  assumes "distinct xs" "length xs \<le> processedTxsMaxSize"
  shows "distinct (fst (seen_signature sg xs))
     \<and> length (fst (seen_signature sg xs)) \<le> processedTxsMaxSize"
proof -
  consider "sg \<in> set xs" | "sg \<notin> set xs \<and> length xs < 10000" | "sg \<notin> set xs \<and> length xs = 10000"
    using assms(2) unfolding processedTxsMaxSize_def
    by (cases "sg \<in> set xs"; cases "length xs = 10000"; simp)
  then show ?thesis
  proof cases
    case 1
    with seen_signature_cases [OF assms, of sg] assms show ?thesis by simp
  next
    case 2
    with seen_signature_cases [OF assms, of sg] assms show ?thesis
      by (simp add: processedTxsMaxSize_def)
  next
    case 3
    moreover from 3 assms have "sg \<notin> set (drop 5000 xs)" by (auto dest: in_set_dropD)
    ultimately show ?thesis
      using seen_signature_cases [OF assms, of sg] assms
      by (simp add: processedTxsMaxSize_def)
  qed
qed

lemma seen_run_inv:
  "distinct (seen_run sigs) \<and> length (seen_run sigs) \<le> processedTxsMaxSize"
proof (induction sigs rule: rev_induct)
  case Nil
  then show ?case by (simp add: seen_run_def)
next
  case (snoc sg sigs)
  then show ?case using seen_signature_inv [of "seen_run sigs" sg]
    by (simp add: seen_run_def)
qed


text \<open>
  C9. For a set of at most 10000 distinct signatures: a signature in the set leaves the
  set as it is and the transaction is not processed; a new signature is appended and
  processed; when the set then has 10001 entries its first 5000, in insertion order, are
  removed. The set stays duplicate-free and within 10000 entries, and so does the set
  after any sequence of events of a fresh process.
\<close>

theorem C9_seen_set_bounded:
  assumes "distinct xs" "length xs \<le> 10000"
  shows "(sg \<in> set xs \<longrightarrow> seen_signature sg xs = (xs, False))
    \<and> (sg \<notin> set xs \<and> length xs < 10000 \<longrightarrow> seen_signature sg xs = (xs @ [sg], True))
    \<and> (sg \<notin> set xs \<and> length xs = 10000 \<longrightarrow>
          seen_signature sg xs = (drop 5000 (xs @ [sg]), True))
    \<and> distinct (fst (seen_signature sg xs))
    \<and> length (fst (seen_signature sg xs)) \<le> 10000
    \<and> length (seen_run sigs) \<le> 10000"
proof -
  from assms have b: "length xs \<le> processedTxsMaxSize" by (simp add: processedTxsMaxSize_def)
  from seen_signature_cases [OF assms(1) b, of sg] seen_signature_inv [OF assms(1) b, of sg]
    seen_run_inv [of sigs]
  show ?thesis by (simp add: processedTxsMaxSize_def)
qed

theorem C9_witness:
  "seen_signature (replicate 10000 CHR ''a'') (map (\<lambda>n. replicate n CHR ''a'') [0..<10000])
     = (drop 5000 (map (\<lambda>n. replicate n CHR ''a'') [0..<10000] @ [replicate 10000 CHR ''a'']), True)
   \<and> length (fst (seen_signature (replicate 10000 CHR ''a'')
                (map (\<lambda>n. replicate n CHR ''a'') [0..<10000]))) = 5001"
proof -
  let ?xs = "map (\<lambda>n. replicate n CHR ''a'') [0..<10000]"
  let ?sg = "replicate 10000 CHR ''a''"
  have inj: "inj_on (\<lambda>n. replicate n CHR ''a'') A" for A
    by (rule inj_onI) (drule arg_cong [where f = length], simp)
  have d: "distinct ?xs" by (simp add: distinct_map inj)
  have l: "length ?xs = 10000" by simp
  have n: "?sg \<notin> set ?xs"
  proof
    assume "?sg \<in> set ?xs"
    then obtain k where "k < 10000" "?sg = replicate k CHR ''a''" by auto
    then have "length ?sg = k" by (simp only: length_replicate)
    with \<open>k < 10000\<close> show False by simp
  qed
  from l have le: "length ?xs \<le> 10000" by simp
  have e: "seen_signature ?sg ?xs = (drop 5000 (?xs @ [?sg]), True)"
    using C9_seen_set_bounded [OF d le, of ?sg "[]"] n l by blast
  have "length (drop 5000 (?xs @ [?sg])) = 5001" by simp
  with e show ?thesis by simp
qed


section \<open>Properties of the instruction parser\<close>

lemma scan_concat:
  "scan decode keys cex results is
     = results @ concat (map (instr_outflows decode keys cex) is)"
  by (induction "is" arbitrary: results) simp_all

lemma parse_concat:
  assumes "meta t \<noteq> None"
  shows "parseBlockTransactions decode t cex
     = concat (map (instr_outflows decode (message_keys (message t)) cex)
                 (message_instructions (message t)))"
  using assms by (auto simp: parseBlockTransactions_def scan_concat)

lemma parse_no_meta:
  "meta t = None \<Longrightarrow> parseBlockTransactions decode t cex = []"
  by (simp add: parseBlockTransactions_def)

lemma key_receiver_address:
  "key_address k = Some a \<Longrightarrow> a \<noteq> [] \<Longrightarrow> key_receiver k = a"
  by (cases k rule: key_address.cases) simp_all

lemma take4_nths:
  assumes "12 \<le> length (bs :: byte list)" "take 4 bs = [2, 0, 0, 0]"
  shows "bs ! 0 = 2 \<and> bs ! 1 = 0 \<and> bs ! 2 = 0 \<and> bs ! 3 = 0"
proof -
  have "bs ! i = take 4 bs ! i" if "i < 4" for i using that by simp
  then have "bs ! 0 = take 4 bs ! 0" "bs ! 1 = take 4 bs ! 1" "bs ! 2 = take 4 bs ! 2"
    "bs ! 3 = take 4 bs ! 3" by simp_all
  then show ?thesis by (simp add: assms(2))
qed

lemma nths_take4:
  assumes "12 \<le> length (bs :: byte list)" "bs ! 0 = 2" "bs ! 1 = 0" "bs ! 2 = 0" "bs ! 3 = 0"
  shows "take 4 bs = [2, 0, 0, 0]"
proof -
  have "length (take 4 bs) = 4" using assms(1) by simp
  moreover have "take 4 bs ! i = [2, 0, 0, 0 :: byte] ! i" if "i < 4" for i
  proof -
    from that have "i = 0 \<or> i = 1 \<or> i = 2 \<or> i = 3" by arith
    with assms show ?thesis by auto
  qed
  ultimately show ?thesis by (intro nth_equalityI) simp_all
qed

text \<open>What the raw case pushes when every check passes.\<close>

lemma raw_case_pushes:
  assumes "programIdIndex instr = Some pidx"
    and "key_address (lookup keys pidx) = Some SYSTEM_PROGRAM"
    and "instrData_of decode instr = Inr (Some payload)"
    and "12 \<le> length payload" and "take 4 payload = [2, 0, 0, 0]"
    and "0 < readBigUInt64LE (take 8 (drop 4 payload))"
    and "accounts instr = Some accs" and "2 \<le> length accs"
    and "key_address (lookup keys (accs ! 0)) = Some cex"
    and "key_receiver (lookup keys (accs ! 1)) = rcv" and "rcv \<noteq> []"
  shows "raw_case decode keys cex instr
     = Inr (Some \<lparr>amount = Finite (of_nat (readBigUInt64LE (take 8 (drop 4 payload))) / 1000000000),
                   receiver = Some rcv, type = ''SOL''\<rparr>)"
proof -
  from take4_nths [OF assms(4,5)]
  have d: "\<not> (payload ! 0 \<noteq> 2 \<or> payload ! 1 \<noteq> 0 \<or> payload ! 2 \<noteq> 0 \<or> payload ! 3 \<noteq> 0)"
    by simp
  from assms(4) have l: "\<not> length payload < 12" by simp
  from assms(6) have a: "\<not> num_le (Finite (of_nat (readBigUInt64LE (take 8 (drop 4 payload))))) (Finite 0)"
    by simp
  from assms(8) have n: "\<not> length accs < 2" by simp
  show ?thesis
    unfolding raw_case_def
    using d l a n assms(9,10,11) by (simp add: assms(1,2,3,7) Let_def)
qed


lemma raw_case_rejects:
  assumes "instrData_of decode instr = Inr (Some payload)"
    and "length payload < 12 \<or> take 4 payload \<noteq> [2, 0, 0, 0]
         \<or> readBigUInt64LE (take 8 (drop 4 payload)) = 0"
  shows "raw_case decode keys cex instr = Inr None"
proof (cases "length payload < 12")
  case True
  then show ?thesis
    by (simp add: raw_case_def assms(1) split: option.splits)
next
  case long: False
  show ?thesis
  proof (cases "take 4 payload = [2, 0, 0, 0]")
    case False
    with long nths_take4 [of payload]
    have "payload ! 0 \<noteq> 2 \<or> payload ! 1 \<noteq> 0 \<or> payload ! 2 \<noteq> 0 \<or> payload ! 3 \<noteq> 0"
      by auto
    then show ?thesis
      by (simp add: raw_case_def assms(1) split: option.splits)
  next
    case True
    with long assms(2) have z: "readBigUInt64LE (take 8 (drop 4 payload)) = 0" by simp
    show ?thesis
      by (simp add: raw_case_def assms(1) z Let_def split: option.splits)
  qed
qed

lemma instr_outflows_raw:
  assumes "program instr = Some ''system'' \<longrightarrow> parsed instr = None"
  shows "instr_outflows decode keys cex instr
     = (case raw_case decode keys cex instr of
          Inl e \<Rightarrow> [] | Inr None \<Rightarrow> [] | Inr (Some out) \<Rightarrow> [out])"
  using assms by (auto simp: instr_outflows_def)

lemma instr_outflows_parsed:
  assumes "program instr = Some ''system''" "parsed instr = Some p"
  shows "instr_outflows decode keys cex instr
     = (case parsed_case cex p of None \<Rightarrow> [] | Some out \<Rightarrow> [out])"
  using assms by (simp add: instr_outflows_def)


lemma payload_2500000000:
  "readBigUInt64LE (take 8 (drop 4 ([2, 0, 0, 0] @ LE64 2500000000))) = 2500000000"
  by (simp add: LE64_def readBigUInt64LE_def)

lemma message_instructions_Some:
  "instructions m = Some is \<Longrightarrow> message_instructions m = is"
  by (simp add: message_instructions_def)

text \<open>
  C2, as stated, fails: a transaction without metadata that holds such an instruction
  yields no outflow.
\<close>

theorem C2_counterexample:
  "parseBlockTransactions (\<lambda>_. None)
     \<lparr>meta = None,
      message = \<lparr>staticAccountKeys =
                   Some [KeyString ''CEX'', KeyString ''DEST'', KeyString SYSTEM_PROGRAM],
                 accountKeys = None,
                 instructions =
                   Some [\<lparr>parsed = None, program = None, programIdIndex = Some 2,
                          data = DataBytes ([2, 0, 0, 0] @ LE64 2500000000),
                          accounts = Some [0, 1]\<rparr>]\<rparr>\<rparr>
     ''CEX'' = []"
  by (simp add: parseBlockTransactions_def)

text \<open>
  C2, amended. In a transaction with metadata, a raw instruction whose program index
  resolves to the native-transfer program, whose payload is 2, 0, 0, 0 followed by the
  eight little-endian bytes of 2500000000, whose account indices are the source and the
  destination index, the first resolving to the watched address and the second to a
  non-empty address, adds exactly one outflow, of amount 2.5 to that address, between
  what the instructions before it and after it add. A transaction of this instruction
  alone yields exactly this outflow.
\<close>

theorem C2_raw_transfer_one_outflow:
  assumes "meta t \<noteq> None"
    and "instructions (message t) = Some (pre @ [instr] @ post)"
    and "parsed instr = None"
    and "programIdIndex instr = Some programIdx"
    and "key_address (lookup (message_keys (message t)) programIdx) = Some SYSTEM_PROGRAM"
    and "instrData_of decode instr = Inr (Some ([2, 0, 0, 0] @ LE64 2500000000))"
    and "accounts instr = Some [sourceIdx, destIdx]"
    and "key_address (lookup (message_keys (message t)) sourceIdx) = Some cex"
    and "key_address (lookup (message_keys (message t)) destIdx) = Some dest"
    and "dest \<noteq> []"
  shows "parseBlockTransactions decode t cex
     = concat (map (instr_outflows decode (message_keys (message t)) cex) pre)
       @ [\<lparr>amount = Finite (5 / 2), receiver = Some dest, type = ''SOL''\<rparr>]
       @ concat (map (instr_outflows decode (message_keys (message t)) cex) post)"
proof -
  let ?keys = "message_keys (message t)"
  have r: "key_receiver (lookup ?keys ([sourceIdx, destIdx] ! 1)) = dest"
    using key_receiver_address [OF assms(9,10)] by simp
  have "raw_case decode ?keys cex instr
     = Inr (Some \<lparr>amount = Finite (of_nat (readBigUInt64LE
                      (take 8 (drop 4 ([2, 0, 0, 0] @ LE64 2500000000)))) / 1000000000),
                   receiver = Some dest, type = ''SOL''\<rparr>)"
  proof (rule raw_case_pushes [OF assms(4,5,6) _ _ _ assms(7) _ _ r assms(10)])
    show "12 \<le> length ([2, 0, 0, 0] @ LE64 2500000000)" by (simp add: LE64_def)
    show "take 4 ([2, 0, 0, 0] @ LE64 2500000000) = [2, 0, 0, 0]" by simp
    show "0 < readBigUInt64LE (take 8 (drop 4 ([2, 0, 0, 0] @ LE64 2500000000)))"
      by (simp only: payload_2500000000)
    show "2 \<le> length [sourceIdx, destIdx]" by simp
    show "key_address (lookup ?keys ([sourceIdx, destIdx] ! 0)) = Some cex"
      using assms(8) by simp
  qed
  note rc = this [unfolded payload_2500000000]
  have "instr_outflows decode ?keys cex instr
     = [\<lparr>amount = Finite (5 / 2), receiver = Some dest, type = ''SOL''\<rparr>]"
    by (simp add: instr_outflows_raw assms(3) rc)
  then show ?thesis
    by (simp add: parse_concat [OF assms(1)] message_instructions_Some [OF assms(2)])
qed

theorem C2_witness:
  "parseBlockTransactions (\<lambda>_. None)
     \<lparr>meta = Some (),
      message = \<lparr>staticAccountKeys =
                   Some [KeyString ''CEX'', PublicKey ''DEST'', KeyString SYSTEM_PROGRAM],
                 accountKeys = None,
                 instructions =
                   Some [\<lparr>parsed = None, program = None, programIdIndex = Some 2,
                          data = DataBytes ([2, 0, 0, 0] @ LE64 2500000000),
                          accounts = Some [0, 1]\<rparr>]\<rparr>\<rparr>
     ''CEX''
   = [\<lparr>amount = Finite (5 / 2), receiver = Some ''DEST'', type = ''SOL''\<rparr>]"
  using C2_raw_transfer_one_outflow
    [of "\<lparr>meta = Some (),
      message = \<lparr>staticAccountKeys =
                   Some [KeyString ''CEX'', PublicKey ''DEST'', KeyString SYSTEM_PROGRAM],
                 accountKeys = None,
                 instructions =
                   Some [\<lparr>parsed = None, program = None, programIdIndex = Some 2,
                          data = DataBytes ([2, 0, 0, 0] @ LE64 2500000000),
                          accounts = Some [0, 1]\<rparr>]\<rparr>\<rparr>"
        "[]"
        "\<lparr>parsed = None, program = None, programIdIndex = Some 2,
                          data = DataBytes ([2, 0, 0, 0] @ LE64 2500000000),
                          accounts = Some [0, 1]\<rparr>"
        "[]" 2 "\<lambda>_. None" 0 1 "''CEX''" "''DEST''"]
  by (simp add: message_keys_def lookup_def instrData_of_def)


text \<open>
  C10. A raw instruction that passes the program, payload, amount and source checks and
  whose second account index has no entry in the account table still adds an outflow,
  with the receiver \<^verbatim>\<open>undefined\<close> as a string; and a transaction without metadata
  yields no outflow, whatever its instructions.
\<close>

theorem C10_missing_receiver_and_absent_meta:
  assumes "meta t \<noteq> None"
    and "instructions (message t) = Some (pre @ [instr] @ post)"
    and "parsed instr = None"
    and "programIdIndex instr = Some programIdx"
    and "key_address (lookup (message_keys (message t)) programIdx) = Some SYSTEM_PROGRAM"
    and "instrData_of decode instr = Inr (Some payload)"
    and "12 \<le> length payload" and "take 4 payload = [2, 0, 0, 0]"
    and "0 < readBigUInt64LE (take 8 (drop 4 payload))"
    and "accounts instr = Some accs" and "2 \<le> length accs"
    and "key_address (lookup (message_keys (message t)) (accs ! 0)) = Some cex"
    and "lookup (message_keys (message t)) (accs ! 1) = None"
  shows "parseBlockTransactions decode t cex
     = concat (map (instr_outflows decode (message_keys (message t)) cex) pre)
       @ [\<lparr>amount = Finite (of_nat (readBigUInt64LE (take 8 (drop 4 payload))) / 1000000000),
           receiver = Some ''undefined'', type = ''SOL''\<rparr>]
       @ concat (map (instr_outflows decode (message_keys (message t)) cex) post)
   \<and> (meta t' = None \<longrightarrow> parseBlockTransactions decode' t' cex' = [])"
proof -
  let ?keys = "message_keys (message t)"
  have r: "key_receiver (lookup ?keys (accs ! 1)) = ''undefined''"
    using assms(13) by simp
  have "raw_case decode ?keys cex instr
     = Inr (Some \<lparr>amount = Finite (of_nat (readBigUInt64LE (take 8 (drop 4 payload))) / 1000000000),
                   receiver = Some ''undefined'', type = ''SOL''\<rparr>)"
    by (rule raw_case_pushes [OF assms(4,5,6,7,8,9,10,11,12) r]) simp
  then have "instr_outflows decode ?keys cex instr
     = [\<lparr>amount = Finite (of_nat (readBigUInt64LE (take 8 (drop 4 payload))) / 1000000000),
         receiver = Some ''undefined'', type = ''SOL''\<rparr>]"
    by (simp add: instr_outflows_raw assms(3))
  then show ?thesis
    by (simp add: parse_concat [OF assms(1)] message_instructions_Some [OF assms(2)]
        parse_no_meta)
qed

theorem C10_witness:
  "parseBlockTransactions (\<lambda>_. None)
     \<lparr>meta = Some (),
      message = \<lparr>staticAccountKeys = None,
                 accountKeys = Some [KeyString ''CEX'', KeyString SYSTEM_PROGRAM],
                 instructions =
                   Some [\<lparr>parsed = None, program = None, programIdIndex = Some 1,
                          data = DataBytes [2, 0, 0, 0, 1, 0, 0, 0, 0, 0, 0, 0],
                          accounts = Some [0, 7]\<rparr>]\<rparr>\<rparr>
     ''CEX''
   = [\<lparr>amount = Finite (1 / 1000000000), receiver = Some ''undefined'', type = ''SOL''\<rparr>]
   \<and> parseBlockTransactions (\<lambda>_. None)
     \<lparr>meta = None,
      message = \<lparr>staticAccountKeys = None,
                 accountKeys = Some [KeyString ''CEX'', KeyString SYSTEM_PROGRAM],
                 instructions =
                   Some [\<lparr>parsed = None, program = None, programIdIndex = Some 1,
                          data = DataBytes [2, 0, 0, 0, 1, 0, 0, 0, 0, 0, 0, 0],
                          accounts = Some [0, 7]\<rparr>]\<rparr>\<rparr>
     ''CEX'' = []"
  using C10_missing_receiver_and_absent_meta
    [of "\<lparr>meta = Some (),
      message = \<lparr>staticAccountKeys = None,
                 accountKeys = Some [KeyString ''CEX'', KeyString SYSTEM_PROGRAM],
                 instructions =
                   Some [\<lparr>parsed = None, program = None, programIdIndex = Some 1,
                          data = DataBytes [2, 0, 0, 0, 1, 0, 0, 0, 0, 0, 0, 0],
                          accounts = Some [0, 7]\<rparr>]\<rparr>\<rparr>"
        "[]"
        "\<lparr>parsed = None, program = None, programIdIndex = Some 1,
                          data = DataBytes [2, 0, 0, 0, 1, 0, 0, 0, 0, 0, 0, 0],
                          accounts = Some [0, 7]\<rparr>"
        "[]" 1 "\<lambda>_. None" "[2, 0, 0, 0, 1, 0, 0, 0, 0, 0, 0, 0]" "[0, 7]" "''CEX''"
        "\<lparr>meta = None,
      message = \<lparr>staticAccountKeys = None,
                 accountKeys = Some [KeyString ''CEX'', KeyString SYSTEM_PROGRAM],
                 instructions =
                   Some [\<lparr>parsed = None, program = None, programIdIndex = Some 1,
                          data = DataBytes [2, 0, 0, 0, 1, 0, 0, 0, 0, 0, 0, 0],
                          accounts = Some [0, 7]\<rparr>]\<rparr>\<rparr>"
        "\<lambda>_. None" "''CEX''"]
  by (simp add: message_keys_def lookup_def instrData_of_def readBigUInt64LE_def)

text \<open>
  C4. The result of the parser is, for a transaction with metadata, the concatenation of
  what each instruction adds on its own, and empty without metadata: no instruction
  stops the scan. A raw instruction for which the raw case throws, in particular whose
  payload cannot be decoded, adds nothing; and one whose payload is shorter than 12
  bytes, or does not start with 2, 0, 0, 0, or carries the amount 0, adds nothing and
  throws nothing.
\<close>

theorem C4_malformed_instructions_skipped:
  "(meta t \<noteq> None \<longrightarrow>
      parseBlockTransactions decode t cex
        = concat (map (instr_outflows decode (message_keys (message t)) cex)
                    (message_instructions (message t))))
   \<and> (meta t = None \<longrightarrow> parseBlockTransactions decode t cex = [])
   \<and> (parsed instr = None \<and> raw_case decode keys cex instr = Inl e \<longrightarrow>
        instr_outflows decode keys cex instr = [])
   \<and> (parsed instr = None \<and> instrData_of decode instr = Inl e \<longrightarrow>
        instr_outflows decode keys cex instr = [])
   \<and> (parsed instr = None \<and> instrData_of decode instr = Inr (Some payload)
        \<and> (length payload < 12 \<or> take 4 payload \<noteq> [2, 0, 0, 0]
             \<or> readBigUInt64LE (take 8 (drop 4 payload)) = 0) \<longrightarrow>
        raw_case decode keys cex instr = Inr None
        \<and> instr_outflows decode keys cex instr = [])"
proof -
  have a: "instr_outflows decode keys cex instr = []"
    if "parsed instr = None \<and> raw_case decode keys cex instr = Inl e"
    using that by (simp add: instr_outflows_raw)
  have b: "instr_outflows decode keys cex instr = []"
    if "parsed instr = None \<and> instrData_of decode instr = Inl e"
  proof -
    from that have "raw_case decode keys cex instr = Inl e \<or> raw_case decode keys cex instr = Inr None"
      by (simp add: raw_case_def split: option.splits)
    with that show ?thesis by (auto simp: instr_outflows_raw)
  qed
  have c: "raw_case decode keys cex instr = Inr None
        \<and> instr_outflows decode keys cex instr = []"
    if "parsed instr = None \<and> instrData_of decode instr = Inr (Some payload)
        \<and> (length payload < 12 \<or> take 4 payload \<noteq> [2, 0, 0, 0]
             \<or> readBigUInt64LE (take 8 (drop 4 payload)) = 0)"
    using that raw_case_rejects [of decode instr payload keys cex]
    by (simp add: instr_outflows_raw)
  from a b c parse_concat [of t decode cex] parse_no_meta [of t decode cex]
  show ?thesis by blast
qed

theorem C4_witness:
  "parseBlockTransactions (\<lambda>_. None)
     \<lparr>meta = Some (),
      message = \<lparr>staticAccountKeys =
                   Some [KeyString ''CEX'', KeyString ''DEST'', KeyString SYSTEM_PROGRAM],
                 accountKeys = None,
                 instructions =
                   Some [\<lparr>parsed = None, program = None, programIdIndex = Some 2,
                          data = DataBytes [2, 0, 0, 0, 1], accounts = Some [0, 1]\<rparr>,
                         \<lparr>parsed = None, program = None, programIdIndex = Some 2,
                          data = DataString ''0OIl'', accounts = Some [0, 1]\<rparr>,
                         \<lparr>parsed = None, program = None, programIdIndex = Some 2,
                          data = DataBytes [2, 0, 0, 0, 1, 0, 0, 0, 0, 0, 0, 0],
                          accounts = Some [0, 1]\<rparr>]\<rparr>\<rparr>
     ''CEX''
   = [\<lparr>amount = Finite (1 / 1000000000), receiver = Some ''DEST'', type = ''SOL''\<rparr>]"
  using C4_malformed_instructions_skipped
    [of "\<lparr>meta = Some (),
      message = \<lparr>staticAccountKeys =
                   Some [KeyString ''CEX'', KeyString ''DEST'', KeyString SYSTEM_PROGRAM],
                 accountKeys = None,
                 instructions =
                   Some [\<lparr>parsed = None, program = None, programIdIndex = Some 2,
                          data = DataBytes [2, 0, 0, 0, 1], accounts = Some [0, 1]\<rparr>,
                         \<lparr>parsed = None, program = None, programIdIndex = Some 2,
                          data = DataString ''0OIl'', accounts = Some [0, 1]\<rparr>,
                         \<lparr>parsed = None, program = None, programIdIndex = Some 2,
                          data = DataBytes [2, 0, 0, 0, 1, 0, 0, 0, 0, 0, 0, 0],
                          accounts = Some [0, 1]\<rparr>]\<rparr>\<rparr>"
        "\<lambda>_. None" "''CEX''"
        "\<lparr>parsed = None, program = None, programIdIndex = Some 2,
                          data = DataBytes [2, 0, 0, 0, 1], accounts = Some [0, 1]\<rparr>"
        "[KeyString ''CEX'', KeyString ''DEST'', KeyString SYSTEM_PROGRAM]"
        DecodeError "[2, 0, 0, 0, 1]"]
  by (simp add: message_keys_def message_instructions_def lookup_def instrData_of_def
      instr_outflows_def raw_case_def readBigUInt64LE_def)





section \<open>Properties of the range parser\<close>

lemma str_split_no_sep:
  "sep \<notin> set s \<Longrightarrow> str_split sep s = [s]"
  by (induction s) auto

lemma str_split_first:
  "sep \<notin> set a \<Longrightarrow> str_split sep (a @ sep # b) = a # str_split sep b"
  by (induction a) auto

text \<open>The empty string converts to 0, so a token that ends in a dash is a range that ends at 0.\<close>

lemma Number_empty: "Number [] = Finite 0"
  by (simp add: Number_def trim_def)

lemma parseToken_single:
  assumes "CHR ''-'' \<notin> set token"
  shows "parseToken token
     = (if isNaN (Number (trim token)) then None
        else Some \<lparr>minR = Number (trim token), maxR = Number (trim token)\<rparr>)"
  using assms by (simp add: parseToken_def str_split_no_sep Let_def)

lemma parseToken_pair:
  assumes "CHR ''-'' \<notin> set a" "CHR ''-'' \<notin> set b"
  shows "parseToken (a @ CHR ''-'' # b)
     = (if isNaN (Number (trim a)) \<or> isNaN (Number (trim b)) then None
        else Some \<lparr>minR = Number (trim a), maxR = Number (trim b)\<rparr>)"
  using assms by (simp add: parseToken_def str_split_first str_split_no_sep Let_def)

lemma parseToken_dangling:
  assumes "CHR ''-'' \<notin> set a" "\<not> isNaN (Number (trim a))"
  shows "parseToken (a @ ''-'') = Some \<lparr>minR = Number (trim a), maxR = Finite 0\<rparr>"
  using parseToken_pair [OF assms(1), of "[]"] assms(2)
  by (simp add: Number_empty trim_def)

text \<open>Such a range is matched by no amount.\<close>

lemma dangling_range_matches_nothing:
  "\<not> amountMatchesRanges x [\<lparr>minR = Finite 3, maxR = Finite 0\<rparr>]"
  by (cases x) (simp_all add: num_ge_def)

lemma parseRanges_examples:
  "parseRanges (Some ''5-10, 20'')
     = [\<lparr>minR = Finite 5, maxR = Finite 10\<rparr>, \<lparr>minR = Finite 20, maxR = Finite 20\<rparr>]"
  "parseRanges (Some []) = []"
  "parseRanges None = []"
  by code_simp+

text \<open>
  C3. On the input \<^verbatim>\<open>abc,3-\<close> the token \<^verbatim>\<open>abc\<close> is dropped, but the token
  \<^verbatim>\<open>3-\<close> is kept as the range from 3 to 0: its second part is the empty string,
  which converts to 0 and not to \<^verbatim>\<open>NaN\<close>.
\<close>

theorem C3_dangling_dash_kept:
  "parseRanges (Some ''abc,3-'') = [\<lparr>minR = Finite 3, maxR = Finite 0\<rparr>]"
  by code_simp

end
